theory Spec2Isabelle
  imports Complex_Main "HOL-Library.Multiset"
begin

section \<open>Bowyer-Watson Delaunay triangulation (bowyer\_watson.go)\<close>

subsection \<open>Numbers and library calls\<close>

text \<open>
  The Go source computes on \<^verbatim>\<open>float64\<close> and calls \<^verbatim>\<open>math.Sqrt\<close> and \<^verbatim>\<open>sort.Sort\<close>.
  IEEE-754 rounding is not formalised here. Instead the type of numbers is a type variable
  \<open>'f\<close> and every operation the source applies to a \<^verbatim>\<open>float64\<close> is a field of the record
  below: \<^verbatim>\<open>+ - * /\<close>, \<^verbatim>\<open>math.Sqrt\<close>, the comparisons \<^verbatim>\<open><= > < ==\<close>, and the constants
  \<^verbatim>\<open>0\<close> (the zero value of a fresh struct field) and \<^verbatim>\<open>2\<close>. A theorem stated for every
  \<open>E\<close> therefore holds whatever the arithmetic does, in particular for binary64 with its
  rounding, infinities and NaN (where \<^verbatim>\<open>==\<close> is not reflexive).

  \<^verbatim>\<open>sort.Sort\<close> belongs to the Go library, not to the repository. It is the field
  \<open>sort_Sort\<close>: a function from the ordering it is given (the \<^verbatim>\<open>Less\<close> method of
  \<^verbatim>\<open>pointsByX\<close>) and the contents of the slice to the contents after sorting.
\<close>

record 'f Point =
  X :: 'f
  Y :: 'f

record 'f runtime =
  fadd :: "'f \<Rightarrow> 'f \<Rightarrow> 'f"
  fsub :: "'f \<Rightarrow> 'f \<Rightarrow> 'f"
  fmul :: "'f \<Rightarrow> 'f \<Rightarrow> 'f"
  fdiv :: "'f \<Rightarrow> 'f \<Rightarrow> 'f"
  fsqrt :: "'f \<Rightarrow> 'f"
  fle :: "'f \<Rightarrow> 'f \<Rightarrow> bool"
  fgt :: "'f \<Rightarrow> 'f \<Rightarrow> bool"
  flt :: "'f \<Rightarrow> 'f \<Rightarrow> bool"
  feq :: "'f \<Rightarrow> 'f \<Rightarrow> bool"
  fzero :: 'f
  ftwo :: 'f
  sort_Sort :: "('f Point \<Rightarrow> 'f Point \<Rightarrow> bool) \<Rightarrow> 'f Point list \<Rightarrow> 'f Point list"

subsection \<open>Data model\<close>

text \<open>
  \<^verbatim>\<open>type Triangle struct { A, B, C Point; center Point; radius, radius2 float64 }\<close> and
  \<^verbatim>\<open>type Edge struct { A, B Point }\<close>. Both structs have fields \<open>A\<close> and \<open>B\<close>; they are
  written \<open>Triangle.A\<close> and \<open>Edge.A\<close>.
\<close>

record 'f Triangle =
  A :: "'f Point"
  B :: "'f Point"
  C :: "'f Point"
  center :: "'f Point"
  radius :: 'f
  radius2 :: 'f

record 'f Edge =
  A :: "'f Point"
  B :: "'f Point"

text \<open>Go's \<^verbatim>\<open>==\<close> on two \<^verbatim>\<open>Point\<close> structs compares the fields with \<^verbatim>\<open>==\<close> on \<^verbatim>\<open>float64\<close>.\<close>

definition peq :: "'f runtime \<Rightarrow> 'f Point \<Rightarrow> 'f Point \<Rightarrow> bool" where
  "peq E p q = (feq E (X p) (X q) \<and> feq E (Y p) (Y q))"

text \<open>\<^verbatim>\<open>func (s pointsByX) Less(i, j int) bool { return s[i].X < s[j].X }\<close>, on the two elements.\<close>

definition Less :: "'f runtime \<Rightarrow> 'f Point \<Rightarrow> 'f Point \<Rightarrow> bool" where
  "Less E p q = flt E (X p) (X q)"

definition sqr :: "'f runtime \<Rightarrow> 'f \<Rightarrow> 'f" where
  "sqr E x = fmul E x x"

subsection \<open>Geometric primitives\<close>

text \<open>
  \<^verbatim>\<open>CalcCircumCircle\<close> reads the three vertices and overwrites the three cached fields, in the
  order \<open>center.X\<close>, \<open>center.Y\<close>, \<open>radius2\<close>, \<open>radius\<close>. In Go \<^verbatim>\<open>a / b / 2\<close> is
  \<^verbatim>\<open>(a / b) / 2\<close> and \<^verbatim>\<open>x + y + z\<close> is \<^verbatim>\<open>(x + y) + z\<close>.
\<close>

definition CalcCircumCircle :: "'f runtime \<Rightarrow> 'f Triangle \<Rightarrow> 'f Triangle" where
  "CalcCircumCircle E t =
    (let ab = fadd E (sqr E (X (Triangle.A t))) (sqr E (Y (Triangle.A t)));
         cd = fadd E (sqr E (X (Triangle.B t))) (sqr E (Y (Triangle.B t)));
         ef = fadd E (sqr E (X (C t))) (sqr E (Y (C t)));
         centerX =
           fdiv E
             (fdiv E
               (fadd E
                 (fadd E (fmul E ab (fsub E (Y (C t)) (Y (Triangle.B t))))
                         (fmul E cd (fsub E (Y (Triangle.A t)) (Y (C t)))))
                 (fmul E ef (fsub E (Y (Triangle.B t)) (Y (Triangle.A t)))))
               (fadd E
                 (fadd E (fmul E (X (Triangle.A t)) (fsub E (Y (C t)) (Y (Triangle.B t))))
                         (fmul E (X (Triangle.B t)) (fsub E (Y (Triangle.A t)) (Y (C t)))))
                 (fmul E (X (C t)) (fsub E (Y (Triangle.B t)) (Y (Triangle.A t))))))
             (ftwo E);
         centerY =
           fdiv E
             (fdiv E
               (fadd E
                 (fadd E (fmul E ab (fsub E (X (C t)) (X (Triangle.B t))))
                         (fmul E cd (fsub E (X (Triangle.A t)) (X (C t)))))
                 (fmul E ef (fsub E (X (Triangle.B t)) (X (Triangle.A t)))))
               (fadd E
                 (fadd E (fmul E (Y (Triangle.A t)) (fsub E (X (C t)) (X (Triangle.B t))))
                         (fmul E (Y (Triangle.B t)) (fsub E (X (Triangle.A t)) (X (C t)))))
                 (fmul E (Y (C t)) (fsub E (X (Triangle.B t)) (X (Triangle.A t))))))
             (ftwo E);
         r2 = fadd E (sqr E (fsub E (X (Triangle.A t)) centerX))
                     (sqr E (fsub E (Y (Triangle.A t)) centerY))
     in t\<lparr>center := \<lparr>X = centerX, Y = centerY\<rparr>, radius2 := r2, radius := fsqrt E r2\<rparr>)"

definition HasVertex :: "'f runtime \<Rightarrow> 'f Triangle \<Rightarrow> 'f Point \<Rightarrow> bool" where
  "HasVertex E t p = (peq E (Triangle.A t) p \<or> peq E (Triangle.B t) p \<or> peq E (C t) p)"

definition CircumcircleContains :: "'f runtime \<Rightarrow> 'f Triangle \<Rightarrow> 'f Point \<Rightarrow> bool" where
  "CircumcircleContains E t p =
    (let dist2 = fadd E (sqr E (fsub E (X p) (X (center t))))
                        (sqr E (fsub E (Y p) (Y (center t))))
     in fle E dist2 (radius2 t))"

definition isEqual :: "'f runtime \<Rightarrow> 'f Edge \<Rightarrow> 'f Edge \<Rightarrow> bool" where
  "isEqual E e1 e2 =
    (peq E (Edge.A e1) (Edge.A e2) \<and> peq E (Edge.B e1) (Edge.B e2) \<or>
     peq E (Edge.A e1) (Edge.B e2) \<and> peq E (Edge.B e1) (Edge.A e2))"

subsection \<open>The loops of DelaunayTriangulation\<close>

text \<open>
  Removal from a slice, written four times in the source as
  \<^verbatim>\<open>n := len(s) - 1; s[i] = s[n]; s = s[:n]\<close>, always with \<open>i < len(s)\<close>.
\<close>

definition swapRemove :: "nat \<Rightarrow> 'a list \<Rightarrow> 'a list" where
  "swapRemove i s = (let n = length s - 1 in take n (s[i := s ! n]))"

text \<open>
  The scan of the active set for one point \<open>p\<close> (source lines 81 to 100). The state is the
  index \<open>i\<close> and the slices \<open>ts\<close>, \<open>result\<close> and \<open>edges\<close>.
\<close>

function scan ::
  "'f runtime \<Rightarrow> 'f Point \<Rightarrow> nat \<Rightarrow> 'f Triangle list \<Rightarrow> 'f Triangle list \<Rightarrow> 'f Edge list
    \<Rightarrow> 'f Triangle list \<times> 'f Triangle list \<times> 'f Edge list" where
  "scan E p i ts result edges =
    (if i < length ts then
       (let t = ts ! i in
        if fgt E (X p) (fadd E (X (center t)) (radius t)) then
          scan E p i (swapRemove i ts) (result @ [t]) edges
        else if CircumcircleContains E t p then
          scan E p i (swapRemove i ts) result
            (edges @ [\<lparr>Edge.A = Triangle.A t, B = Triangle.B t\<rparr>,
                      \<lparr>Edge.A = Triangle.A t, B = C t\<rparr>,
                      \<lparr>Edge.A = Triangle.B t, B = C t\<rparr>])
        else scan E p (i + 1) ts result edges)
     else (ts, result, edges))"
  by pat_completeness auto
termination
  by (relation "measure (\<lambda>(E, p, i, ts, result, edges). length ts - i)")
     (auto simp: swapRemove_def Let_def)

declare scan.simps [simp del]

text \<open>The edge deduplication (source lines 102 to 112): the inner loop over \<open>i\<close>, then the outer over \<open>j\<close>.\<close>

function dedupInner :: "'f runtime \<Rightarrow> nat \<Rightarrow> nat \<Rightarrow> 'f Edge list \<Rightarrow> 'f Edge list" where
  "dedupInner E j i edges =
    (if i < length edges then
       (if \<not> isEqual E (edges ! j) (edges ! i) then dedupInner E j (i + 1) edges
        else dedupInner E j i (swapRemove i edges))
     else edges)"
  by pat_completeness auto
termination
  by (relation "measure (\<lambda>(E, j, i, edges). length edges - i)")
     (auto simp: swapRemove_def Let_def)

declare dedupInner.simps [simp del]

function dedupOuter :: "'f runtime \<Rightarrow> nat \<Rightarrow> 'f Edge list \<Rightarrow> 'f Edge list" where
  "dedupOuter E j edges =
    (if j < length edges then dedupOuter E (j + 1) (dedupInner E j (j + 1) edges)
     else edges)"
  by pat_completeness auto
termination
proof (relation "measure (\<lambda>(E, j, edges). length edges - j)")
  show "wf (measure (\<lambda>(E :: 'a runtime, j, edges :: 'a Edge list). length edges - j))"
    by simp
next
  fix E :: "'a runtime" and j :: nat and edges :: "'a Edge list"
  assume less: "j < length edges"
  have shorter: "length (dedupInner E j i es) \<le> length es" for i and es :: "'a Edge list"
  proof (induction E j i es rule: dedupInner.induct)
    case (1 E j i es)
    show ?case
    proof (cases "i < length es")
      case False
      then show ?thesis
        by (simp add: dedupInner.simps [of E j i es])
    next
      case inside: True
      show ?thesis
      proof (cases "isEqual E (es ! j) (es ! i)")
        case True
        with inside "1.IH"(2) have "length (dedupInner E j i (swapRemove i es)) \<le> length es - 1"
          by (simp add: swapRemove_def Let_def)
        with inside True show ?thesis
          by (simp add: dedupInner.simps [of E j i es])
      next
        case False
        with inside "1.IH"(1) show ?thesis
          by (simp add: dedupInner.simps [of E j i es])
      qed
    qed
  qed
  from less shorter [of "j + 1" edges]
  show "((E, j + 1, dedupInner E j (j + 1) edges), (E, j, edges))
      \<in> measure (\<lambda>(E, j, edges). length edges - j)"
    by simp
qed

declare dedupOuter.simps [simp del]

text \<open>
  One surviving edge and the point give a new triangle (source lines 115 and 116):
  \<^verbatim>\<open>t := Triangle{A: e.A, B: e.B, C: p}; t.CalcCircumCircle()\<close>. The fields the literal
  omits hold Go's zero value until \<^verbatim>\<open>CalcCircumCircle\<close> overwrites them.
\<close>

definition newTriangle :: "'f runtime \<Rightarrow> 'f Point \<Rightarrow> 'f Edge \<Rightarrow> 'f Triangle" where
  "newTriangle E p e =
    CalcCircumCircle E
      \<lparr>Triangle.A = Edge.A e, B = Edge.B e, C = p,
       center = \<lparr>X = fzero E, Y = fzero E\<rparr>, radius = fzero E, radius2 = fzero E\<rparr>"

text \<open>
  The body of \<^verbatim>\<open>for _, p := range pts\<close> (source lines 79 to 118): \<open>edges\<close> is emptied,
  the active set is scanned, the edges are deduplicated, and one triangle for each
  remaining edge is appended to \<open>ts\<close>.
\<close>

definition insertPoint ::
  "'f runtime \<Rightarrow> 'f Point \<Rightarrow> 'f Triangle list \<times> 'f Triangle list
    \<Rightarrow> 'f Triangle list \<times> 'f Triangle list" where
  "insertPoint E p s =
    (case scan E p 0 (fst s) (snd s) [] of
       (ts, result, edges) \<Rightarrow> (ts @ map (newTriangle E p) (dedupOuter E 0 edges), result))"

fun insertPoints ::
  "'f runtime \<Rightarrow> 'f Point list \<Rightarrow> 'f Triangle list \<times> 'f Triangle list
    \<Rightarrow> 'f Triangle list \<times> 'f Triangle list" where
  "insertPoints E [] s = s"
| "insertPoints E (p # pts) s = insertPoints E pts (insertPoint E p s)"

text \<open>The final filter (source lines 124 to 133).\<close>

function purge :: "'f runtime \<Rightarrow> 'f Triangle \<Rightarrow> nat \<Rightarrow> 'f Triangle list \<Rightarrow> 'f Triangle list" where
  "purge E super i result =
    (if i < length result then
       (let t = result ! i in
        if \<not> HasVertex E t (Triangle.A super) \<and> \<not> HasVertex E t (Triangle.B super)
           \<and> \<not> HasVertex E t (C super)
        then purge E super (i + 1) result
        else purge E super i (swapRemove i result))
     else result)"
  by pat_completeness auto
termination
  by (relation "measure (\<lambda>(E, super, i, result). length result - i)")
     (auto simp: swapRemove_def Let_def)

declare purge.simps [simp del]

text \<open>
  The whole function. \<open>super\<close> is a by-value parameter, so \<^verbatim>\<open>super.CalcCircumCircle()\<close>
  changes the local copy, which is also the \<open>super\<close> whose vertices the final filter reads.
  \<^verbatim>\<open>make\<close> and \<^verbatim>\<open>copy\<close> give \<open>pts\<close> the contents of \<open>points\<close>.
\<close>

definition DelaunayTriangulation ::
  "'f runtime \<Rightarrow> 'f Point list \<Rightarrow> 'f Triangle \<Rightarrow> 'f Triangle list" where
  "DelaunayTriangulation E points super0 =
    (let super = CalcCircumCircle E super0;
         ts = [super];
         pts = sort_Sort E (Less E) points;
         (ts, result) = insertPoints E pts (ts, []);
         result = result @ ts
     in purge E super 0 result)"

subsection \<open>The same loops as partial functions\<close>

text \<open>
  The three index loops are \<^verbatim>\<open>for\<close> loops without a bound written in them. To state that
  they return, each is defined a second time as a partial function into \<open>option\<close>, where
  a loop that runs forever has the value \<open>None\<close>. The bodies are those of \<open>scan\<close>,
  \<open>dedupInner\<close>, \<open>dedupOuter\<close> and \<open>purge\<close>. The call of \<^verbatim>\<open>sort.Sort\<close> is taken to
  return, as every field of \<open>E\<close> is a total function.
\<close>

partial_function (option) scan_opt ::
  "'f runtime \<Rightarrow> 'f Point \<Rightarrow> nat \<Rightarrow> 'f Triangle list \<Rightarrow> 'f Triangle list \<Rightarrow> 'f Edge list
    \<Rightarrow> ('f Triangle list \<times> 'f Triangle list \<times> 'f Edge list) option" where
  "scan_opt E p i ts result edges =
    (if i < length ts then
       (let t = ts ! i in
        if fgt E (X p) (fadd E (X (center t)) (radius t)) then
          scan_opt E p i (swapRemove i ts) (result @ [t]) edges
        else if CircumcircleContains E t p then
          scan_opt E p i (swapRemove i ts) result
            (edges @ [\<lparr>Edge.A = Triangle.A t, B = Triangle.B t\<rparr>,
                      \<lparr>Edge.A = Triangle.A t, B = C t\<rparr>,
                      \<lparr>Edge.A = Triangle.B t, B = C t\<rparr>])
        else scan_opt E p (i + 1) ts result edges)
     else Some (ts, result, edges))"

partial_function (option) dedupInner_opt ::
  "'f runtime \<Rightarrow> nat \<Rightarrow> nat \<Rightarrow> 'f Edge list \<Rightarrow> 'f Edge list option" where
  "dedupInner_opt E j i edges =
    (if i < length edges then
       (if \<not> isEqual E (edges ! j) (edges ! i) then dedupInner_opt E j (i + 1) edges
        else dedupInner_opt E j i (swapRemove i edges))
     else Some edges)"

partial_function (option) dedupOuter_opt ::
  "'f runtime \<Rightarrow> nat \<Rightarrow> 'f Edge list \<Rightarrow> 'f Edge list option" where
  "dedupOuter_opt E j edges =
    (if j < length edges then
       Option.bind (dedupInner_opt E j (j + 1) edges) (\<lambda>edges. dedupOuter_opt E (j + 1) edges)
     else Some edges)"

partial_function (option) purge_opt ::
  "'f runtime \<Rightarrow> 'f Triangle \<Rightarrow> nat \<Rightarrow> 'f Triangle list \<Rightarrow> 'f Triangle list option" where
  "purge_opt E super i result =
    (if i < length result then
       (let t = result ! i in
        if \<not> HasVertex E t (Triangle.A super) \<and> \<not> HasVertex E t (Triangle.B super)
           \<and> \<not> HasVertex E t (C super)
        then purge_opt E super (i + 1) result
        else purge_opt E super i (swapRemove i result))
     else Some result)"

definition insertPoint_opt ::
  "'f runtime \<Rightarrow> 'f Point \<Rightarrow> 'f Triangle list \<times> 'f Triangle list
    \<Rightarrow> ('f Triangle list \<times> 'f Triangle list) option" where
  "insertPoint_opt E p s =
    Option.bind (scan_opt E p 0 (fst s) (snd s) [])
      (\<lambda>(ts, result, edges).
        Option.bind (dedupOuter_opt E 0 edges)
          (\<lambda>edges. Some (ts @ map (newTriangle E p) edges, result)))"

fun insertPoints_opt ::
  "'f runtime \<Rightarrow> 'f Point list \<Rightarrow> 'f Triangle list \<times> 'f Triangle list
    \<Rightarrow> ('f Triangle list \<times> 'f Triangle list) option" where
  "insertPoints_opt E [] s = Some s"
| "insertPoints_opt E (p # pts) s =
    Option.bind (insertPoint_opt E p s) (insertPoints_opt E pts)"

definition DelaunayTriangulation_opt ::
  "'f runtime \<Rightarrow> 'f Point list \<Rightarrow> 'f Triangle \<Rightarrow> 'f Triangle list option" where
  "DelaunayTriangulation_opt E points super0 =
    (let super = CalcCircumCircle E super0;
         ts = [super];
         pts = sort_Sort E (Less E) points
     in Option.bind (insertPoints_opt E pts (ts, []))
          (\<lambda>(ts, result). purge_opt E super 0 (result @ ts)))"

subsection \<open>The triangles that are queried\<close>





subsection \<open>The caller's slice\<close>

text \<open>
  \<open>points\<close> is a slice: the callee shares its backing array with the caller. To state what
  the call does to that array, memory is a map from addresses to arrays of points, with
  the next unused address. A slice is the address of its array and spans all of it.
  \<^verbatim>\<open>make([]Point, n)\<close> takes a fresh address and fills it with \<open>n\<close> zero points;
  \<^verbatim>\<open>copy(dst, src)\<close> overwrites the first \<open>min (len dst) (len src)\<close> elements of \<open>dst\<close>;
  \<^verbatim>\<open>sort.Sort(pointsByX(pts))\<close> reorders the array of \<open>pts\<close> in place.
\<close>

record 'f heap =
  arrays :: "nat \<Rightarrow> 'f Point list"
  unused :: nat

definition make :: "'f runtime \<Rightarrow> 'f heap \<Rightarrow> nat \<Rightarrow> nat \<times> 'f heap" where
  "make E h n =
    (unused h,
     h\<lparr>arrays := (arrays h)(unused h := replicate n \<lparr>X = fzero E, Y = fzero E\<rparr>),
       unused := unused h + 1\<rparr>)"

definition copy :: "'f heap \<Rightarrow> nat \<Rightarrow> nat \<Rightarrow> 'f heap" where
  "copy h dst src =
    (let n = min (length (arrays h dst)) (length (arrays h src))
     in h\<lparr>arrays := (arrays h)(dst := take n (arrays h src) @ drop n (arrays h dst))\<rparr>)"

definition sortInPlace :: "'f runtime \<Rightarrow> 'f heap \<Rightarrow> nat \<Rightarrow> 'f heap" where
  "sortInPlace E h s = h\<lparr>arrays := (arrays h)(s := sort_Sort E (Less E) (arrays h s))\<rparr>"

text \<open>
  \<open>DelaunayTriangulation\<close> on that memory: \<open>points\<close> is now the address of the caller's
  array, and the memory after the call is returned with the triangles. The slices \<open>ts\<close>,
  \<open>result\<close> and \<open>edges\<close> hold triangles and edges, are created inside the call and are
  kept as values.
\<close>

definition DelaunayTriangulation_heap ::
  "'f runtime \<Rightarrow> 'f heap \<Rightarrow> nat \<Rightarrow> 'f Triangle \<Rightarrow> 'f Triangle list \<times> 'f heap" where
  "DelaunayTriangulation_heap E h0 points super0 =
    (let super = CalcCircumCircle E super0;
         ts = [super];
         (pts, h1) = make E h0 (length (arrays h0 points));
         h2 = copy h1 pts points;
         h3 = sortInPlace E h2 pts;
         (ts, result) = insertPoints E (arrays h3 pts) (ts, []);
         result = result @ ts
     in (purge E super 0 result, h3))"

subsection \<open>The variant without early finalization\<close>

text \<open>
  The spec describes a naive variant: the branch \<^verbatim>\<open>p.X > t.center.X+t.radius\<close> is
  omitted, so that every triangle stays in the active set until it is invalidated or all
  points are processed. These definitions follow that description; the rest is as above.
\<close>

function scan_naive ::
  "'f runtime \<Rightarrow> 'f Point \<Rightarrow> nat \<Rightarrow> 'f Triangle list \<Rightarrow> 'f Edge list
    \<Rightarrow> 'f Triangle list \<times> 'f Edge list" where
  "scan_naive E p i ts edges =
    (if i < length ts then
       (let t = ts ! i in
        if CircumcircleContains E t p then
          scan_naive E p i (swapRemove i ts)
            (edges @ [\<lparr>Edge.A = Triangle.A t, B = Triangle.B t\<rparr>,
                      \<lparr>Edge.A = Triangle.A t, B = C t\<rparr>,
                      \<lparr>Edge.A = Triangle.B t, B = C t\<rparr>])
        else scan_naive E p (i + 1) ts edges)
     else (ts, edges))"
  by pat_completeness auto
termination
  by (relation "measure (\<lambda>(E, p, i, ts, edges). length ts - i)")
     (auto simp: swapRemove_def Let_def)

declare scan_naive.simps [simp del]

definition insertPoint_naive :: "'f runtime \<Rightarrow> 'f Point \<Rightarrow> 'f Triangle list \<Rightarrow> 'f Triangle list" where
  "insertPoint_naive E p ts0 =
    (case scan_naive E p 0 ts0 [] of
       (ts, edges) \<Rightarrow> ts @ map (newTriangle E p) (dedupOuter E 0 edges))"

definition DelaunayTriangulation_naive ::
  "'f runtime \<Rightarrow> 'f Point list \<Rightarrow> 'f Triangle \<Rightarrow> 'f Triangle list" where
  "DelaunayTriangulation_naive E points super0 =
    (let super = CalcCircumCircle E super0;
         pts = sort_Sort E (Less E) points;
         ts = foldl (\<lambda>ts p. insertPoint_naive E p ts) [super] pts
     in purge E super 0 ts)"

subsection \<open>Exact arithmetic with the special values\<close>

text \<open>
  Concrete inputs are evaluated in one interpretation of the numbers: the reals, computed
  with exactly, the two infinities and NaN. Special values behave as in IEEE-754: NaN
  compares false with everything, itself included; a non-zero number divided by zero is
  an infinity and \<open>0 / 0\<close> is NaN. Rounding, overflow and the sign of zero are absent
  (zero counts as positive when it divides).
\<close>

datatype xfloat = Fin real | PInf | NInf | NaN

fun xneg :: "xfloat \<Rightarrow> xfloat" where
  "xneg (Fin a) = Fin (- a)"
| "xneg PInf = NInf"
| "xneg NInf = PInf"
| "xneg NaN = NaN"

fun xadd :: "xfloat \<Rightarrow> xfloat \<Rightarrow> xfloat" where
  "xadd (Fin a) (Fin b) = Fin (a + b)"
| "xadd NaN y = NaN"
| "xadd x NaN = NaN"
| "xadd PInf NInf = NaN"
| "xadd NInf PInf = NaN"
| "xadd PInf y = PInf"
| "xadd x PInf = PInf"
| "xadd NInf y = NInf"
| "xadd x NInf = NInf"

definition xsub :: "xfloat \<Rightarrow> xfloat \<Rightarrow> xfloat" where
  "xsub x y = xadd x (xneg y)"

fun xsign :: "xfloat \<Rightarrow> int" where
  "xsign (Fin a) = (if a > 0 then 1 else if a < 0 then - 1 else 0)"
| "xsign PInf = 1"
| "xsign NInf = - 1"
| "xsign NaN = 0"

fun xmul :: "xfloat \<Rightarrow> xfloat \<Rightarrow> xfloat" where
  "xmul (Fin a) (Fin b) = Fin (a * b)"
| "xmul NaN y = NaN"
| "xmul x NaN = NaN"
| "xmul x y =
     (if xsign x * xsign y = 0 then NaN else if xsign x * xsign y > 0 then PInf else NInf)"

fun xdiv :: "xfloat \<Rightarrow> xfloat \<Rightarrow> xfloat" where
  "xdiv (Fin a) (Fin b) =
     (if b \<noteq> 0 then Fin (a / b) else if a = 0 then NaN else if a > 0 then PInf else NInf)"
| "xdiv NaN y = NaN"
| "xdiv x NaN = NaN"
| "xdiv (Fin a) y = Fin 0"
| "xdiv x (Fin b) = (if xsign x * (if b < 0 then - 1 else 1) > 0 then PInf else NInf)"
| "xdiv x y = NaN"

fun xsqrt :: "xfloat \<Rightarrow> xfloat" where
  "xsqrt (Fin a) = (if a < 0 then NaN else Fin (sqrt a))"
| "xsqrt PInf = PInf"
| "xsqrt NInf = NaN"
| "xsqrt NaN = NaN"

fun xle :: "xfloat \<Rightarrow> xfloat \<Rightarrow> bool" where
  "xle (Fin a) (Fin b) = (a \<le> b)"
| "xle NaN y = False"
| "xle x NaN = False"
| "xle NInf y = True"
| "xle x PInf = True"
| "xle x y = False"

fun xeq :: "xfloat \<Rightarrow> xfloat \<Rightarrow> bool" where
  "xeq NaN y = False"
| "xeq x NaN = False"
| "xeq x y = (x = y)"

fun xlt :: "xfloat \<Rightarrow> xfloat \<Rightarrow> bool" where
  "xlt (Fin a) (Fin b) = (a < b)"
| "xlt x y = (xle x y \<and> \<not> xeq x y)"

text \<open>
  \<^verbatim>\<open>sort.Sort\<close> in this interpretation is the insertion sort that the Go library runs on a
  slice of at most 12 elements: each element moves left past the elements it is less
  than. \<open>insertLeft\<close> works on the sorted prefix in reverse.
\<close>

fun insertLeft :: "('a \<Rightarrow> 'a \<Rightarrow> bool) \<Rightarrow> 'a \<Rightarrow> 'a list \<Rightarrow> 'a list" where
  "insertLeft lt x [] = [x]"
| "insertLeft lt x (y # ys) = (if lt x y then y # insertLeft lt x ys else x # y # ys)"

definition insertionSort :: "('a \<Rightarrow> 'a \<Rightarrow> bool) \<Rightarrow> 'a list \<Rightarrow> 'a list" where
  "insertionSort lt xs = rev (foldl (\<lambda>prefix x. insertLeft lt x prefix) [] xs)"

definition exact :: "xfloat runtime" where
  "exact =
    \<lparr>fadd = xadd, fsub = xsub, fmul = xmul, fdiv = xdiv, fsqrt = xsqrt,
     fle = xle, fgt = (\<lambda>x y. xlt y x), flt = xlt, feq = xeq,
     fzero = Fin 0, ftwo = Fin 2, sort_Sort = insertionSort\<rparr>"

text \<open>The points and the enclosing triangle of the repository's tests, and a point of numbers.\<close>

definition pt :: "real \<Rightarrow> real \<Rightarrow> xfloat Point" where
  "pt x y = \<lparr>X = Fin x, Y = Fin y\<rparr>"

definition triangle :: "'f runtime \<Rightarrow> 'f Point \<Rightarrow> 'f Point \<Rightarrow> 'f Point \<Rightarrow> 'f Triangle" where
  "triangle E a b c =
    \<lparr>Triangle.A = a, B = b, C = c,
     center = \<lparr>X = fzero E, Y = fzero E\<rparr>, radius = fzero E, radius2 = fzero E\<rparr>"

definition super_test :: "xfloat Triangle" where
  "super_test = triangle exact (pt 0 50) (pt 50 (- 50)) (pt (- 50) (- 50))"

subsection \<open>Notions used in the statements\<close>

text \<open>
  The condition under which the final filter leaves a triangle in \<open>result\<close>, the squared
  distance that \<^verbatim>\<open>CircumcircleContains\<close> computes, the two endpoints of an edge, and the
  edges that the scan collects from an invalidated triangle.
\<close>

definition kept :: "'f runtime \<Rightarrow> 'f Triangle \<Rightarrow> 'f Triangle \<Rightarrow> bool" where
  "kept E super t =
    (\<not> HasVertex E t (Triangle.A super) \<and> \<not> HasVertex E t (Triangle.B super)
     \<and> \<not> HasVertex E t (C super))"

definition dist2 :: "'f runtime \<Rightarrow> 'f Point \<Rightarrow> 'f Point \<Rightarrow> 'f" where
  "dist2 E p q = fadd E (sqr E (fsub E (X p) (X q))) (sqr E (fsub E (Y p) (Y q)))"

definition edge :: "'f Point \<Rightarrow> 'f Point \<Rightarrow> 'f Edge" where
  "edge a b = \<lparr>Edge.A = a, B = b\<rparr>"

definition endpoints :: "'f Edge \<Rightarrow> 'f Point list" where
  "endpoints e = [Edge.A e, Edge.B e]"

definition edgesOf :: "'f Triangle \<Rightarrow> 'f Edge list" where
  "edgesOf t = [edge (Triangle.A t) (Triangle.B t), edge (Triangle.A t) (C t),
                edge (Triangle.B t) (C t)]"


text \<open>The test of the early-finalization branch, \<^verbatim>\<open>p.X > t.center.X+t.radius\<close>.\<close>

definition finalizes :: "'f runtime \<Rightarrow> 'f Point \<Rightarrow> 'f Triangle \<Rightarrow> bool" where
  "finalizes E p t = fgt E (X p) (fadd E (X (center t)) (radius t))"



text \<open>
  Vertices in the order of a list \<open>L\<close>, among its first \<open>n\<close> elements: the three vertices
  of a triangle, and the two endpoints of an edge.
\<close>

definition orderedT :: "'f Point list \<Rightarrow> nat \<Rightarrow> 'f Triangle \<Rightarrow> bool" where
  "orderedT L n t =
    (\<exists>i j k. i < j \<and> j < k \<and> k < n \<and> L ! i = Triangle.A t \<and> L ! j = Triangle.B t \<and> L ! k = C t)"

definition orderedE :: "'f Point list \<Rightarrow> nat \<Rightarrow> 'f Edge \<Rightarrow> bool" where
  "orderedE L n e = (\<exists>i j. i < j \<and> j < n \<and> L ! i = Edge.A e \<and> L ! j = Edge.B e)"

text \<open>
  Two conditions on a run of the loop over the points, from a state \<open>s\<close> (the active list and
  \<open>result\<close>) with the points still to be processed. The finalizations are safe when no
  triangle that passes the test of the early-finalization branch at a point \<open>p\<close> holds \<open>p\<close>
  or a point processed after \<open>p\<close> in its circumcircle, as \<^verbatim>\<open>CircumcircleContains\<close> decides it.
  The edges are unambiguous when, among the edges that the scan collects at one point,
  \<^verbatim>\<open>isEqual\<close> holds only between an edge and itself.
\<close>

definition finalizedSafely ::
  "'f runtime \<Rightarrow> 'f Point \<Rightarrow> 'f Point list \<Rightarrow> 'f Triangle list \<Rightarrow> bool" where
  "finalizedSafely E p rest ts =
    (\<forall>t \<in> set ts. finalizes E p t \<longrightarrow> (\<forall>q \<in> set (p # rest). \<not> CircumcircleContains E t q))"

definition collected ::
  "'f runtime \<Rightarrow> 'f Point \<Rightarrow> 'f Triangle list \<times> 'f Triangle list \<Rightarrow> 'f Edge list" where
  "collected E p s = snd (snd (scan E p 0 (fst s) (snd s) []))"

definition unambiguous :: "'f runtime \<Rightarrow> 'f Edge list \<Rightarrow> bool" where
  "unambiguous E es = (\<forall>e \<in> set es. \<forall>f \<in> set es. isEqual E e f \<longrightarrow> e = f)"

fun finalizationsSafe ::
  "'f runtime \<Rightarrow> 'f Point list \<Rightarrow> 'f Triangle list \<times> 'f Triangle list \<Rightarrow> bool" where
  "finalizationsSafe E [] s = True"
| "finalizationsSafe E (p # rest) s =
    (finalizedSafely E p rest (fst s) \<and> finalizationsSafe E rest (insertPoint E p s))"

fun edgesUnambiguous ::
  "'f runtime \<Rightarrow> 'f Point list \<Rightarrow> 'f Triangle list \<times> 'f Triangle list \<Rightarrow> bool" where
  "edgesUnambiguous E [] s = True"
| "edgesUnambiguous E (p # rest) s =
    (unambiguous E (collected E p s) \<and> edgesUnambiguous E rest (insertPoint E p s))"

text \<open>The points of a list are pairwise unequal when \<^verbatim>\<open>==\<close> holds between no two of its positions.\<close>

definition unequal :: "'f runtime \<Rightarrow> 'f Point list \<Rightarrow> bool" where
  "unequal E L = (\<forall>i < length L. \<forall>j < length L. i \<noteq> j \<longrightarrow> \<not> peq E (L ! i) (L ! j))"

text \<open>
  A triangle of finite numbers with its cache, as \<^verbatim>\<open>CalcCircumCircle\<close> leaves it in exact
  arithmetic, and a triangle whose three vertices each have a NaN coordinate.
\<close>

definition cached ::
  "xfloat Point \<Rightarrow> xfloat Point \<Rightarrow> xfloat Point \<Rightarrow> xfloat Point \<Rightarrow> real \<Rightarrow> xfloat Triangle" where
  "cached a b c ctr r2 =
    \<lparr>Triangle.A = a, B = b, C = c, center = ctr, radius = Fin (sqrt r2), radius2 = Fin r2\<rparr>"

definition nan_triangle :: "xfloat Triangle" where
  "nan_triangle =
    triangle exact \<lparr>X = NaN, Y = Fin 50\<rparr> \<lparr>X = Fin 50, Y = NaN\<rparr> \<lparr>X = NaN, Y = Fin (- 50)\<rparr>"

section \<open>Properties\<close>

subsection \<open>Removal by overwriting with the last element\<close>

lemma length_swapRemove: "length (swapRemove i s) = length s - 1"
  by (simp add: swapRemove_def Let_def)

lemma take_swapRemove: "i < length s \<Longrightarrow> take i (swapRemove i s) = take i s"
  by (auto simp: swapRemove_def Let_def min_def)

lemma drop_swapRemove:
  assumes "i < length s"
  shows "mset (drop i (swapRemove i s)) = mset (drop (Suc i) s)"
proof (cases "i = length s - 1")
  case True
  with assms show ?thesis
    by (simp add: swapRemove_def Let_def)
next
  case False
  define n where "n = length s - 1"
  from assms False have i: "i < n" and n: "Suc n = length s"
    by (simp_all add: n_def)
  have "drop i (swapRemove i s) = take (n - i) (drop i (s[i := s ! n]))"
    by (simp add: swapRemove_def Let_def n_def drop_take)
  also have "drop i (s[i := s ! n]) = (s ! n) # drop (Suc i) s"
    using assms by (simp add: drop_update_swap Cons_nth_drop_Suc [symmetric] upd_conv_take_nth_drop)
  also have "take (n - i) ((s ! n) # drop (Suc i) s) = (s ! n) # take (n - Suc i) (drop (Suc i) s)"
  proof -
    from i have "n - i = Suc (n - Suc i)" by simp
    then show ?thesis by simp
  qed
  finally have l: "drop i (swapRemove i s) = (s ! n) # take (n - Suc i) (drop (Suc i) s)" .
  have len: "length (drop (Suc i) s) = Suc (n - Suc i)"
    using i n by simp
  have "take (Suc (n - Suc i)) (drop (Suc i) s)
      = take (n - Suc i) (drop (Suc i) s) @ [drop (Suc i) s ! (n - Suc i)]"
  proof (rule take_Suc_conv_app_nth)
    from len show "n - Suc i < length (drop (Suc i) s)" by linarith
  qed
  moreover have "take (Suc (n - Suc i)) (drop (Suc i) s) = drop (Suc i) s"
    using len by simp
  moreover have "drop (Suc i) s ! (n - Suc i) = s ! n"
    using i n by simp
  ultimately have "mset (drop (Suc i) s) = mset (take (n - Suc i) (drop (Suc i) s) @ [s ! n])"
    by metis
  also have "\<dots> = mset ((s ! n) # take (n - Suc i) (drop (Suc i) s))"
    by simp
  finally show ?thesis
    by (simp only: l)
qed

lemma mset_swapRemove:
  assumes "i < length s"
  shows "mset (swapRemove i s) = mset (take i s) + mset (drop (Suc i) s)"
proof -
  have "swapRemove i s = take i (swapRemove i s) @ drop i (swapRemove i s)"
    by simp
  then have "mset (swapRemove i s) = mset (take i (swapRemove i s)) + mset (drop i (swapRemove i s))"
    by (metis mset_append)
  with assms show ?thesis
    by (simp add: take_swapRemove drop_swapRemove)
qed


lemma set_take_swapRemove: "i < length s \<Longrightarrow> set (take i (swapRemove i s)) = set (take i s)"
  by (simp add: take_swapRemove)

lemma set_drop_swapRemove: "i < length s \<Longrightarrow> set (drop i (swapRemove i s)) = set (drop (Suc i) s)"
proof -
  assume "i < length s"
  then have "set_mset (mset (drop i (swapRemove i s))) = set_mset (mset (drop (Suc i) s))"
    by (simp only: drop_swapRemove)
  then show ?thesis by simp
qed

lemma set_swapRemove_duplicate:
  assumes "j < i" and "i < length es" and "es ! j = es ! i"
  shows "set (swapRemove i es) = set es"
proof -
  from assms(2) have "set_mset (mset (swapRemove i es)) = set (take i es) \<union> set (drop (Suc i) es)"
    by (simp add: mset_swapRemove)
  moreover from assms(2) have "set es = set (take i es) \<union> insert (es ! i) (set (drop (Suc i) es))"
    by (metis append_take_drop_id Cons_nth_drop_Suc set_append list.simps(15))
  moreover from assms have "es ! i \<in> set (take i es)"
    by (metis in_set_conv_nth length_take min_less_iff_conj nth_take order_less_trans)
  ultimately show ?thesis
    by auto
qed

subsection \<open>What the final filter returns\<close>

lemma mset_purge:
  "i \<le> length result \<Longrightarrow>
    mset (purge E super i result)
      = mset (take i result) + filter_mset (kept E super) (mset (drop i result))"
proof (induction E super i result rule: purge.induct)
  case (1 E super i result)
  show ?case
  proof (cases "i < length result")
    case False
    then have "purge E super i result = result"
      by (simp add: purge.simps [of E super i result])
    with False "1.prems" show ?thesis
      by simp
  next
    case inside: True
    then have split: "drop i result = result ! i # drop (Suc i) result"
      and upto: "take (Suc i) result = take i result @ [result ! i]"
      by (simp_all add: Cons_nth_drop_Suc take_Suc_conv_app_nth)
    show ?thesis
    proof (cases "kept E super (result ! i)")
      case True
      then have keep:
        "\<not> HasVertex E (result ! i) (Triangle.A super)
         \<and> \<not> HasVertex E (result ! i) (Triangle.B super)
         \<and> \<not> HasVertex E (result ! i) (C super)"
        by (simp add: kept_def)
      with inside have "purge E super i result = purge E super (i + 1) result"
        by (simp add: purge.simps [of E super i result] Let_def)
      moreover from inside have "i + 1 \<le> length result"
        by simp
      note "1.IH"(1) [OF inside refl keep this]
      ultimately show ?thesis
        using True by (simp add: split upto)
    next
      case False
      then have drop:
        "\<not> (\<not> HasVertex E (result ! i) (Triangle.A super)
         \<and> \<not> HasVertex E (result ! i) (Triangle.B super)
         \<and> \<not> HasVertex E (result ! i) (C super))"
        by (simp add: kept_def)
      with inside have "purge E super i result = purge E super i (swapRemove i result)"
        by (auto simp: purge.simps [of E super i result] Let_def)
      moreover from inside have "i \<le> length (swapRemove i result)"
        by (simp add: length_swapRemove)
      note "1.IH"(2) [OF inside refl drop this]
      ultimately show ?thesis
        using False inside by (simp add: split take_swapRemove drop_swapRemove)
    qed
  qed
qed

lemma set_purge: "set (purge E super 0 result) = {t \<in> set result. kept E super t}"
proof -
  have "set_mset (mset (purge E super 0 result)) = set_mset (filter_mset (kept E super) (mset result))"
    by (simp add: mset_purge)
  then show ?thesis by simp
qed

lemma CalcCircumCircle_vertices:
  "Triangle.A (CalcCircumCircle E t) = Triangle.A t"
  "Triangle.B (CalcCircumCircle E t) = Triangle.B t"
  "C (CalcCircumCircle E t) = C t"
  by (simp_all add: CalcCircumCircle_def Let_def)


subsection \<open>Evaluation in exact arithmetic\<close>

lemma xeq_sym: "xeq x y \<Longrightarrow> xeq y x"
  by (cases x; cases y) simp_all

lemma xeq_trans: "xeq x y \<Longrightarrow> xeq y z \<Longrightarrow> xeq x z"
  by (cases x; cases y; cases z) simp_all


lemma xeq_identical: "xeq x y \<Longrightarrow> x = y"
  by (cases x; cases y) simp_all


lemma add_sqrt_less_iff:
  fixes r c x :: real
  assumes "0 \<le> r"
  shows "(c + sqrt r < x) = (0 < x - c \<and> r < (x - c) * (x - c))"
proof
  assume "c + sqrt r < x"
  then have less: "sqrt r < x - c" by simp
  have nonneg: "0 \<le> sqrt r" using assms by simp
  from less nonneg have "0 < x - c" by linarith
  moreover from less less nonneg nonneg have "sqrt r * sqrt r < (x - c) * (x - c)"
    by (rule mult_strict_mono')
  ultimately show "0 < x - c \<and> r < (x - c) * (x - c)"
    using assms by simp
next
  assume a: "0 < x - c \<and> r < (x - c) * (x - c)"
  then have "r < (x - c)\<^sup>2" by (simp add: power2_eq_square)
  then have "sqrt r < sqrt ((x - c)\<^sup>2)" by (simp only: real_sqrt_less_iff)
  with a show "c + sqrt r < x" by simp
qed

lemma fgt_exact_add:
  "0 \<le> r \<Longrightarrow> fgt exact (Fin x) (Fin (c + sqrt r)) = (0 < x - c \<and> r < (x - c) * (x - c))"
  by (simp add: exact_def add_sqrt_less_iff)

lemma fgt_exact_sqrt: "0 \<le> r \<Longrightarrow> fgt exact (Fin x) (Fin (sqrt r)) = (0 < x \<and> r < x * x)"
  using fgt_exact_add [of r x 0] by simp

lemma fgt_exact_diff:
  "0 \<le> r \<Longrightarrow> fgt exact (Fin x) (Fin (sqrt r - c)) = (0 < x + c \<and> r < (x + c) * (x + c))"
  using fgt_exact_add [of r x "- c"] by simp

lemma fgt_exact_one: "fgt exact (Fin x) (Fin 1) = (1 < x)"
  by (simp add: exact_def)

lemma fgt_exact_nan: "fgt exact NaN y = False"
  by (cases y) (simp_all add: exact_def)

lemma exact_ops:
  "fadd exact = xadd" "fsub exact = xsub" "fmul exact = xmul" "fdiv exact = xdiv"
  "fsqrt exact = xsqrt" "fle exact = xle" "flt exact = xlt" "feq exact = xeq"
  "fzero exact = Fin 0" "ftwo exact = Fin 2" "sort_Sort exact = insertionSort"
  by (simp_all add: exact_def)

lemmas eval_exact = exact_ops pt_def triangle_def super_test_def cached_def edge_def
  DelaunayTriangulation_def Let_def CalcCircumCircle_def sqr_def xsub_def insertionSort_def
  Less_def scan.simps swapRemove_def CircumcircleContains_def insertPoint_def dedupOuter.simps
  dedupInner.simps isEqual_def peq_def newTriangle_def purge.simps HasVertex_def
  fgt_exact_add fgt_exact_sqrt fgt_exact_diff fgt_exact_one

lemmas eval_naive = eval_exact scan_naive.simps insertPoint_naive_def
  DelaunayTriangulation_naive_def fgt_exact_nan

lemma after_first_point:
  "insertPoint exact (pt (- 1) 0) ([CalcCircumCircle exact super_test], []) =
    ([cached (pt 0 50) (pt 50 (- 50)) (pt (- 1) 0) (pt (3749 / 52) (2449 / 104)) (63788005 / 10816),
      cached (pt 0 50) (pt (- 50) (- 50)) (pt (- 1) 0) (pt (- (3749 / 48)) (2549 / 96)) (61287005 / 9216),
      cached (pt 50 (- 50)) (pt (- 50) (- 50)) (pt (- 1) 0) (pt 0 (- (4999 / 100))) (25000001 / 10000)],
     [])"
  by (simp add: eval_exact)

lemma scan_second_point:
  "scan exact (pt 0 (- 1)) 0
     [cached (pt 0 50) (pt 50 (- 50)) (pt (- 1) 0) (pt (3749 / 52) (2449 / 104)) (63788005 / 10816),
      cached (pt 0 50) (pt (- 50) (- 50)) (pt (- 1) 0) (pt (- (3749 / 48)) (2549 / 96)) (61287005 / 9216),
      cached (pt 50 (- 50)) (pt (- 50) (- 50)) (pt (- 1) 0) (pt 0 (- (4999 / 100))) (25000001 / 10000)]
     [] [] =
    ([cached (pt 0 50) (pt (- 50) (- 50)) (pt (- 1) 0) (pt (- (3749 / 48)) (2549 / 96)) (61287005 / 9216)],
     [],
     [edge (pt 0 50) (pt 50 (- 50)), edge (pt 0 50) (pt (- 1) 0), edge (pt 50 (- 50)) (pt (- 1) 0),
      edge (pt 50 (- 50)) (pt (- 50) (- 50)), edge (pt 50 (- 50)) (pt (- 1) 0),
      edge (pt (- 50) (- 50)) (pt (- 1) 0)])"
  by (simp add: eval_exact)

lemma dedup_second_point:
  "dedupOuter exact 0
     [edge (pt 0 50) (pt 50 (- 50)), edge (pt 0 50) (pt (- 1) 0), edge (pt 50 (- 50)) (pt (- 1) 0),
      edge (pt 50 (- 50)) (pt (- 50) (- 50)), edge (pt 50 (- 50)) (pt (- 1) 0),
      edge (pt (- 50) (- 50)) (pt (- 1) 0)] =
     [edge (pt 0 50) (pt 50 (- 50)), edge (pt 0 50) (pt (- 1) 0), edge (pt 50 (- 50)) (pt (- 1) 0),
      edge (pt 50 (- 50)) (pt (- 50) (- 50)), edge (pt (- 50) (- 50)) (pt (- 1) 0)]"
  by (simp add: eval_exact)

lemma four_points:
  "DelaunayTriangulation exact [pt (- 1) 0, pt 0 (- 1), pt 1 0, pt 2 2] super_test =
    [cached (pt (- 1) 0) (pt 0 (- 1)) (pt 1 0) (pt 0 0) 1,
     cached (pt 0 (- 1)) (pt 1 0) (pt 2 2) (pt (- (7 / 2)) (7 / 2)) (65 / 2),
     cached (pt (- 1) 0) (pt 1 0) (pt 2 2) (pt 0 (7 / 4)) (65 / 16)]"
  by (simp add: eval_exact)

subsection \<open>The edge deduplication keeps one copy of a repeated edge\<close>

text \<open>
  Claim C1 says that an edge collected more than once from the invalidated triangles is
  dropped entirely. The loops compare \<open>edges[j]\<close> with every later \<open>edges[i]\<close> and remove
  \<open>edges[i]\<close> when they are equal; \<open>edges[j]\<close> itself is never removed. With the enclosing
  triangle of the repository's tests and the points \<open>(-1, 0)\<close> and \<open>(0, -1)\<close>, the second
  point invalidates two triangles that share the edge from \<open>(50, -50)\<close> to \<open>(-1, 0)\<close>. The
  edge is collected twice and one copy is still there after the deduplication.
\<close>

theorem shared_edge_survives:
  "snd (snd (scan exact (pt 0 (- 1)) 0
      (fst (insertPoint exact (pt (- 1) 0) ([CalcCircumCircle exact super_test], []))) [] [])) =
     [edge (pt 0 50) (pt 50 (- 50)), edge (pt 0 50) (pt (- 1) 0), edge (pt 50 (- 50)) (pt (- 1) 0),
      edge (pt 50 (- 50)) (pt (- 50) (- 50)), edge (pt 50 (- 50)) (pt (- 1) 0),
      edge (pt (- 50) (- 50)) (pt (- 1) 0)] \<and>
   dedupOuter exact 0
     [edge (pt 0 50) (pt 50 (- 50)), edge (pt 0 50) (pt (- 1) 0), edge (pt 50 (- 50)) (pt (- 1) 0),
      edge (pt 50 (- 50)) (pt (- 50) (- 50)), edge (pt 50 (- 50)) (pt (- 1) 0),
      edge (pt (- 50) (- 50)) (pt (- 1) 0)] =
     [edge (pt 0 50) (pt 50 (- 50)), edge (pt 0 50) (pt (- 1) 0), edge (pt 50 (- 50)) (pt (- 1) 0),
      edge (pt 50 (- 50)) (pt (- 50) (- 50)), edge (pt (- 50) (- 50)) (pt (- 1) 0)]"
  by (simp add: after_first_point scan_second_point dedup_second_point)

subsection \<open>An output triangle whose circumcircle holds another input point\<close>

text \<open>
  Claim C2 says that on valid input no output triangle has another input point inside its
  circumcircle. The four points \<open>(-1, 0)\<close>, \<open>(0, -1)\<close>, \<open>(1, 0)\<close>, \<open>(2, 2)\<close> are in convex
  position, strictly inside the enclosing triangle, pairwise different and no three of
  them are collinear. The function returns three triangles for them; the circumcircle of
  the second one, with vertices \<open>(0, -1)\<close>, \<open>(1, 0)\<close>, \<open>(2, 2)\<close>, contains \<open>(-1, 0)\<close>, which is
  not one of its vertices. The triangle comes from the copy of a shared edge that the
  deduplication leaves behind.
\<close>

theorem four_points_not_delaunay:
  "DelaunayTriangulation exact [pt (- 1) 0, pt 0 (- 1), pt 1 0, pt 2 2] super_test =
    [cached (pt (- 1) 0) (pt 0 (- 1)) (pt 1 0) (pt 0 0) 1,
     cached (pt 0 (- 1)) (pt 1 0) (pt 2 2) (pt (- (7 / 2)) (7 / 2)) (65 / 2),
     cached (pt (- 1) 0) (pt 1 0) (pt 2 2) (pt 0 (7 / 4)) (65 / 16)] \<and>
   CircumcircleContains exact
     (cached (pt 0 (- 1)) (pt 1 0) (pt 2 2) (pt (- (7 / 2)) (7 / 2)) (65 / 2)) (pt (- 1) 0) \<and>
   \<not> HasVertex exact
     (cached (pt 0 (- 1)) (pt 1 0) (pt 2 2) (pt (- (7 / 2)) (7 / 2)) (65 / 2)) (pt (- 1) 0)"
  by (simp add: four_points) (simp add: eval_exact)

subsection \<open>Early finalization against the variant without it\<close>

text \<open>
  Claim C3 says that the function returns the same set of triangles as the variant
  without the early-finalization branch, for every list of points. The branch relies on
  the points being processed in ascending order of \<open>X\<close>. \<^verbatim>\<open>sort.Sort\<close> orders by \<^verbatim>\<open>Less\<close>,
  which is false whenever one side is NaN, so a point with a NaN \<open>X\<close> keeps the points
  after it from moving in front of it. For the six points \<open>(-1, 0)\<close>, \<open>(0, -1)\<close>,
  \<open>(1, 0)\<close>, \<open>(2, 2)\<close>, \<open>(NaN, 0)\<close>, \<open>(1/2, 1/2)\<close> the sort changes nothing. The triangle
  \<open>(-1, 0)\<close>, \<open>(0, -1)\<close>, \<open>(1, 0)\<close>, with center \<open>(0, 0)\<close> and radius \<open>1\<close>, is finalized at
  \<open>(2, 2)\<close> and returned; the variant without the branch invalidates it at \<open>(1/2, 1/2)\<close>,
  which is inside its circumcircle. The lemmas below follow the two runs point by point.
\<close>

lemma super_test_calculated:
  "CalcCircumCircle exact super_test =
    cached (pt 0 50) (pt 50 (- 50)) (pt (- 50) (- 50)) (pt 0 (- (25 / 2))) (15625 / 4)"
  by (simp add: eval_exact)

lemma six_points_sorted:
  "sort_Sort exact (Less exact)
     [pt (- 1) 0, pt 0 (- 1), pt 1 0, pt 2 2, \<lparr>X = NaN, Y = Fin 0\<rparr>, pt (1 / 2) (1 / 2)] =
     [pt (- 1) 0, pt 0 (- 1), pt 1 0, pt 2 2, \<lparr>X = NaN, Y = Fin 0\<rparr>, pt (1 / 2) (1 / 2)]"
  by (simp add: exact_ops insertionSort_def Less_def pt_def)

lemma early_step1:
  "insertPoint exact (pt (- 1) 0)
    ([cached (pt 0 50) (pt 50 (- 50)) (pt (- 50) (- 50)) (pt 0 (- (25 / 2))) (15625 / 4)],
     []) =
    ([cached (pt 0 50) (pt 50 (- 50)) (pt (- 1) 0) (pt (3749 / 52) (2449 / 104)) (63788005 / 10816),
     cached (pt 0 50) (pt (- 50) (- 50)) (pt (- 1) 0) (pt (- (3749 / 48)) (2549 / 96)) (61287005 / 9216),
     cached (pt 50 (- 50)) (pt (- 50) (- 50)) (pt (- 1) 0) (pt 0 (- (4999 / 100))) (25000001 / 10000)],
     [])"
  by (simp add: eval_naive)

lemma early_step2:
  "insertPoint exact (pt 0 (- 1))
    ([cached (pt 0 50) (pt 50 (- 50)) (pt (- 1) 0) (pt (3749 / 52) (2449 / 104)) (63788005 / 10816),
     cached (pt 0 50) (pt (- 50) (- 50)) (pt (- 1) 0) (pt (- (3749 / 48)) (2549 / 96)) (61287005 / 9216),
     cached (pt 50 (- 50)) (pt (- 50) (- 50)) (pt (- 1) 0) (pt 0 (- (4999 / 100))) (25000001 / 10000)],
     []) =
    ([cached (pt 0 50) (pt (- 50) (- 50)) (pt (- 1) 0) (pt (- (3749 / 48)) (2549 / 96)) (61287005 / 9216),
     cached (pt 0 50) (pt 50 (- 50)) (pt 0 (- 1)) (pt 74 (49 / 2)) (24505 / 4),
     cached (pt 0 50) (pt (- 1) 0) (pt 0 (- 1)) (pt (49 / 2) (49 / 2)) (2501 / 2),
     cached (pt 50 (- 50)) (pt (- 1) 0) (pt 0 (- 1)) (pt (4999 / 2) (4999 / 2)) (25000001 / 2),
     cached (pt 50 (- 50)) (pt (- 50) (- 50)) (pt 0 (- 1)) (pt 0 (- (4999 / 98))) (24019801 / 9604),
     cached (pt (- 50) (- 50)) (pt (- 1) 0) (pt 0 (- 1)) (pt (- (4999 / 198)) (- (4999 / 198))) (24019801 / 19602)],
     [])"
  by (simp add: eval_naive)

lemma early_step3:
  "insertPoint exact (pt 1 0)
    ([cached (pt 0 50) (pt (- 50) (- 50)) (pt (- 1) 0) (pt (- (3749 / 48)) (2549 / 96)) (61287005 / 9216),
     cached (pt 0 50) (pt 50 (- 50)) (pt 0 (- 1)) (pt 74 (49 / 2)) (24505 / 4),
     cached (pt 0 50) (pt (- 1) 0) (pt 0 (- 1)) (pt (49 / 2) (49 / 2)) (2501 / 2),
     cached (pt 50 (- 50)) (pt (- 1) 0) (pt 0 (- 1)) (pt (4999 / 2) (4999 / 2)) (25000001 / 2),
     cached (pt 50 (- 50)) (pt (- 50) (- 50)) (pt 0 (- 1)) (pt 0 (- (4999 / 98))) (24019801 / 9604),
     cached (pt (- 50) (- 50)) (pt (- 1) 0) (pt 0 (- 1)) (pt (- (4999 / 198)) (- (4999 / 198))) (24019801 / 19602)],
     []) =
    ([cached (pt 0 50) (pt (- 50) (- 50)) (pt (- 1) 0) (pt (- (3749 / 48)) (2549 / 96)) (61287005 / 9216),
     cached (pt (- 50) (- 50)) (pt (- 1) 0) (pt 0 (- 1)) (pt (- (4999 / 198)) (- (4999 / 198))) (24019801 / 19602),
     cached (pt 50 (- 50)) (pt (- 50) (- 50)) (pt 0 (- 1)) (pt 0 (- (4999 / 98))) (24019801 / 9604),
     cached (pt 0 50) (pt 50 (- 50)) (pt 1 0) (pt (3749 / 48) (2549 / 96)) (61287005 / 9216),
     cached (pt 0 50) (pt 0 (- 1)) (pt 1 0) (pt (- (49 / 2)) (49 / 2)) (2501 / 2),
     cached (pt 50 (- 50)) (pt 0 (- 1)) (pt 1 0) (pt (4999 / 198) (- (4999 / 198))) (24019801 / 19602),
     cached (pt 0 50) (pt (- 1) 0) (pt 1 0) (pt 0 (2499 / 100)) (6255001 / 10000),
     cached (pt (- 1) 0) (pt 0 (- 1)) (pt 1 0) (pt 0 0) 1,
     cached (pt 50 (- 50)) (pt (- 1) 0) (pt 1 0) (pt 0 (- (4999 / 100))) (25000001 / 10000)],
     [])"
  by (simp add: eval_naive)













lemma scan_sets:
  "i \<le> length ts \<Longrightarrow>
    set (fst (scan E p i ts res es))
      = set (take i ts)
        \<union> {t \<in> set (drop i ts). \<not> finalizes E p t \<and> \<not> CircumcircleContains E t p} \<and>
    set (fst (snd (scan E p i ts res es))) = set res \<union> {t \<in> set (drop i ts). finalizes E p t} \<and>
    set (snd (snd (scan E p i ts res es)))
      = set es \<union> (\<Union>t \<in> {t \<in> set (drop i ts). \<not> finalizes E p t \<and> CircumcircleContains E t p}.
                    set (edgesOf t))"
proof (induction E p i ts res es rule: scan.induct)
  case (1 E p i ts res es)
  show ?case
  proof (cases "i < length ts")
    case False
    then have "scan E p i ts res es = (ts, res, es)"
      by (simp add: scan.simps [of E p i ts])
    with False "1.prems" show ?thesis
      by simp
  next
    case inside: True
    then have split: "set (drop i ts) = insert (ts ! i) (set (drop (Suc i) ts))"
      and upto: "set (take (Suc i) ts) = insert (ts ! i) (set (take i ts))"
      by (simp_all add: Cons_nth_drop_Suc [symmetric] take_Suc_conv_app_nth)
    from inside have shorter: "i \<le> length (swapRemove i ts)"
      by (simp add: length_swapRemove)
    note removed = set_take_swapRemove [OF inside] set_drop_swapRemove [OF inside]
    show ?thesis
    proof (cases "finalizes E p (ts ! i)")
      case True
      then have f: "fgt E (X p) (fadd E (X (center (ts ! i))) (radius (ts ! i)))"
        by (simp add: finalizes_def)
      with inside have "scan E p i ts res es = scan E p i (swapRemove i ts) (res @ [ts ! i]) es"
        by (simp add: scan.simps [of E p i ts] Let_def)
      with "1.IH"(1) [OF inside refl f shorter] True show ?thesis
        by (auto simp: removed split)
    next
      case notfin: False
      then have f: "\<not> fgt E (X p) (fadd E (X (center (ts ! i))) (radius (ts ! i)))"
        by (simp add: finalizes_def)
      show ?thesis
      proof (cases "CircumcircleContains E (ts ! i) p")
        case True
        with inside f have "scan E p i ts res es =
            scan E p i (swapRemove i ts) res
              (es @ [\<lparr>Edge.A = Triangle.A (ts ! i), B = Triangle.B (ts ! i)\<rparr>,
                     \<lparr>Edge.A = Triangle.A (ts ! i), B = C (ts ! i)\<rparr>,
                     \<lparr>Edge.A = Triangle.B (ts ! i), B = C (ts ! i)\<rparr>])"
          by (simp add: scan.simps [of E p i ts] Let_def)
        with "1.IH"(2) [OF inside refl f True shorter] True notfin show ?thesis
          by (auto simp: removed split edgesOf_def edge_def)
      next
        case False
        with inside f have "scan E p i ts res es = scan E p (i + 1) ts res es"
          by (simp add: scan.simps [of E p i ts] Let_def)
        moreover from inside have "i + 1 \<le> length ts"
          by simp
        note "1.IH"(3) [OF inside refl f False this]
        ultimately show ?thesis
          using False notfin by (auto simp: split upto)
      qed
    qed
  qed
qed


lemma set_dedupInner:
  "j < i \<Longrightarrow> \<forall>e \<in> set es. \<forall>f \<in> set es. isEqual E e f \<longrightarrow> e = f \<Longrightarrow>
    set (dedupInner E j i es) = set es"
proof (induction E j i es rule: dedupInner.induct)
  case (1 E j i es)
  show ?case
  proof (cases "i < length es")
    case False
    then show ?thesis
      by (simp add: dedupInner.simps [of E j i es])
  next
    case inside: True
    show ?thesis
    proof (cases "isEqual E (es ! j) (es ! i)")
      case False
      with inside have "dedupInner E j i es = dedupInner E j (i + 1) es"
        by (simp add: dedupInner.simps [of E j i es])
      moreover from "1.prems"(1) have "j < i + 1"
        by simp
      note "1.IH"(1) [OF inside False this "1.prems"(2)]
      ultimately show ?thesis
        by simp
    next
      case True
      with inside "1.prems" have "es ! j = es ! i"
        by simp
      with "1.prems"(1) inside have same: "set (swapRemove i es) = set es"
        by (rule set_swapRemove_duplicate)
      from inside True have "dedupInner E j i es = dedupInner E j i (swapRemove i es)"
        by (simp add: dedupInner.simps [of E j i es])
      moreover from True have "\<not> \<not> isEqual E (es ! j) (es ! i)"
        by simp
      note "1.IH"(2) [OF inside this "1.prems"(1)]
      ultimately show ?thesis
        using "1.prems"(2) by (simp add: same)
    qed
  qed
qed

lemma set_dedupOuter:
  "\<forall>e \<in> set es. \<forall>f \<in> set es. isEqual E e f \<longrightarrow> e = f \<Longrightarrow> set (dedupOuter E j es) = set es"
proof (induction E j es rule: dedupOuter.induct)
  case (1 E j es)
  show ?case
  proof (cases "j < length es")
    case False
    then show ?thesis
      by (simp add: dedupOuter.simps [of E j es])
  next
    case True
    have inner: "set (dedupInner E j (j + 1) es) = set es"
      using "1.prems" by (simp add: set_dedupInner)
    from True have "dedupOuter E j es = dedupOuter E (j + 1) (dedupInner E j (j + 1) es)"
      by (simp add: dedupOuter.simps [of E j es])
    with "1.IH" [OF True] "1.prems" inner show ?thesis
      by simp
  qed
qed



text \<open>
  Where the two conditions come from. Every finalization is safe when the finalization
  test is sound for the arithmetic and the sorted points are in ascending order, as in
  exact arithmetic with no NaN among the \<open>X\<close> coordinates. The collected edges are
  unambiguous when the vertices of the enclosing triangle and the sorted points are
  pairwise unequal: the vertices of every triangle and edge are then in the order of
  their insertion.

  With binary64 operations, each rounded on its own, either condition can fail for finite
  points inside the enclosing triangle, and the two variants then return different sets.
  The test adds a rounded square root to the center, while \<^verbatim>\<open>CircumcircleContains\<close> compares
  squared distances: for a center with \<open>X\<close> \<open>-73.12715117751975\<close> and a \<open>radius2\<close> of
  \<open>8474.33752193859\<close>, the number next above \<open>center.X + radius\<close> passes the test and its
  squared distance is not above \<open>radius2\<close>. For the points \<open>(0, -1)\<close>, \<open>(-1, -1)\<close>, \<open>(2, -1)\<close>,
  \<open>(0, -2)\<close>, \<open>(0, -1)\<close> and the enclosing triangle of the tests every finalization is safe,
  but the triangle \<open>(-50, -50)\<close>, \<open>(0, -1)\<close>, \<open>(0, -2)\<close>, with center \<open>(-48.52, -1.5)\<close> and
  \<open>radius2\<close> \<open>2354.4404\<close>, stays active at the second \<open>(0, -1)\<close>, the squared distance of its
  own vertex being computed as \<open>2354.4404000000004\<close>; at \<open>(2, -1)\<close> the edges from \<open>(0, -1)\<close> to
  \<open>(0, -2)\<close> and from \<open>(0, -2)\<close> to \<open>(0, -1)\<close> are collected together, and the two variants keep
  different ones of them. The instance \<open>exact\<close> does not round, so these two runs are not
  evaluated here; the theorem below covers them through its two conditions.
\<close>

lemma orderedE_identical:
  assumes "unequal E L" and "n \<le> length L"
    and e: "orderedE L n e" and f: "orderedE L n f" and eq: "isEqual E e f"
  shows "e = f"
proof -
  from e obtain i j where ij: "i < j" "j < n" "L ! i = Edge.A e" "L ! j = Edge.B e"
    by (auto simp: orderedE_def)
  from f obtain i' j' where ij': "i' < j'" "j' < n" "L ! i' = Edge.A f" "L ! j' = Edge.B f"
    by (auto simp: orderedE_def)
  from assms(2) ij ij' have len: "i < length L" "j < length L" "i' < length L" "j' < length L"
    by simp_all
  have index: "a = b" if "a < length L" "b < length L" "peq E (L ! a) (L ! b)" for a b
    using assms(1) that unfolding unequal_def by blast
  from eq consider "peq E (L ! i) (L ! i')" "peq E (L ! j) (L ! j')"
    | "peq E (L ! i) (L ! j')" "peq E (L ! j) (L ! i')"
    by (auto simp: isEqual_def ij ij')
  then show ?thesis
  proof cases
    case 1
    with len have "i = i'" and "j = j'"
      by (simp_all add: index)
    with ij ij' have "Edge.A e = Edge.A f" and "Edge.B e = Edge.B f"
      by simp_all
    then show ?thesis by simp
  next
    case 2
    with len have "i = j'" and "j = i'"
      by (simp_all add: index)
    with ij ij' show ?thesis
      by simp
  qed
qed

lemma orderedT_edgesOf: "orderedT L n t \<Longrightarrow> e \<in> set (edgesOf t) \<Longrightarrow> orderedE L n e"
  by (auto simp: orderedT_def orderedE_def edgesOf_def edge_def) (meson less_trans)+

lemma orderedT_newTriangle:
  "orderedE L n e \<Longrightarrow> p = L ! n \<Longrightarrow> orderedT L (Suc n) (newTriangle E p e)"
  by (auto simp: orderedT_def orderedE_def newTriangle_def CalcCircumCircle_vertices)

lemma orderedT_Suc: "orderedT L n t \<Longrightarrow> orderedT L (Suc n) t"
  by (auto simp: orderedT_def) (meson less_Suc_eq)




lemma insertPoint_active:
  "set (fst (insertPoint E p s))
    \<subseteq> set (fst s) \<union> newTriangle E p ` set (dedupOuter E 0 (collected E p s))"
  using scan_sets [of 0 "fst s" E p "snd s" "[]"]
  by (auto simp: insertPoint_def collected_def split_def)


lemma edgesUnambiguous_unequal:
  "unequal E (pre @ rest) \<Longrightarrow> \<forall>t \<in> set (fst s). orderedT (pre @ rest) (length pre) t \<Longrightarrow>
    edgesUnambiguous E rest s"
proof (induction rest arbitrary: pre s)
  case Nil
  show ?case by simp
next
  case (Cons p rest)
  let ?L = "pre @ p # rest"
  let ?n = "length pre"
  let ?es = "collected E p s"
  have es: "set ?es \<subseteq> (\<Union>t \<in> set (fst s). set (edgesOf t))"
    using scan_sets [of 0 "fst s" E p "snd s" "[]"] by (auto simp: collected_def)
  have ordered: "orderedE ?L ?n e" if "e \<in> set ?es" for e
    using that es Cons.prems(2) by (blast intro: orderedT_edgesOf)
  have unamb: "unambiguous E ?es"
    unfolding unambiguous_def
  proof (intro ballI impI)
    fix e f
    assume "e \<in> set ?es" and "f \<in> set ?es" and eq: "isEqual E e f"
    then have oe: "orderedE ?L ?n e" and of: "orderedE ?L ?n f"
      by (simp_all add: ordered)
    have "?n \<le> length ?L" by simp
    with Cons.prems(1) show "e = f"
      using oe of eq by (rule orderedE_identical)
  qed
  then have dedup: "set (dedupOuter E 0 ?es) = set ?es"
    unfolding unambiguous_def by (rule set_dedupOuter)
  have "\<forall>t \<in> set (fst (insertPoint E p s)). orderedT ((pre @ [p]) @ rest) (length (pre @ [p])) t"
  proof
    fix t
    assume "t \<in> set (fst (insertPoint E p s))"
    with insertPoint_active [of E p s] dedup
    consider "t \<in> set (fst s)" | e where "e \<in> set ?es" and "t = newTriangle E p e"
      by auto
    then have "orderedT ?L (Suc ?n) t"
    proof cases
      case 1
      with Cons.prems(2) show ?thesis
        by (simp add: orderedT_Suc)
    next
      case 2
      have "p = ?L ! ?n" by simp
      with ordered [OF 2(1)] have "orderedT ?L (Suc ?n) (newTriangle E p e)"
        by (rule orderedT_newTriangle)
      with 2(2) show ?thesis by simp
    qed
    then show "orderedT ((pre @ [p]) @ rest) (length (pre @ [p])) t"
      by simp
  qed
  moreover from Cons.prems(1) have "unequal E ((pre @ [p]) @ rest)"
    by simp
  ultimately have "edgesUnambiguous E rest (insertPoint E p s)"
    by (rule Cons.IH [rotated])
  with unamb show ?case
    by simp
qed

lemma unequal_distinct:
  assumes "\<forall>p q. peq E p q \<longrightarrow> p = q" and "distinct L"
  shows "unequal E L"
  unfolding unequal_def
proof (intro allI impI)
  fix i j
  assume "i < length L" and "j < length L" and "i \<noteq> j"
  with assms(2) have "L ! i \<noteq> L ! j"
    by (simp add: nth_eq_iff_index_eq)
  with assms(1) show "\<not> peq E (L ! i) (L ! j)"
    by blast
qed

lemma peq_exact_identical: "peq exact p q \<Longrightarrow> p = q"
  by (simp add: peq_def exact_ops xeq_identical)


text \<open>
  The six points above meet the second condition and fail the first: the triangle \<open>(-1, 0)\<close>,
  \<open>(0, -1)\<close>, \<open>(1, 0)\<close> passes the test at \<open>(2, 2)\<close> and holds the later point \<open>(1/2, 1/2)\<close>.
\<close>

lemma six_points_unambiguous:
  "edgesUnambiguous exact
     (sort_Sort exact (Less exact)
        [pt (- 1) 0, pt 0 (- 1), pt 1 0, pt 2 2, \<lparr>X = NaN, Y = Fin 0\<rparr>, pt (1 / 2) (1 / 2)])
     ([CalcCircumCircle exact super_test], [])"
proof -
  let ?pts = "[pt (- 1) 0, pt 0 (- 1), pt 1 0, pt 2 2, \<lparr>X = NaN, Y = Fin 0\<rparr>, pt (1 / 2) (1 / 2)]"
  let ?s = "CalcCircumCircle exact super_test"
  let ?pre = "[Triangle.A super_test, Triangle.B super_test, C super_test]"
  have "distinct (?pre @ ?pts)"
    by (simp add: super_test_def triangle_def pt_def)
  with peq_exact_identical have u: "unequal exact (?pre @ ?pts)"
    by (blast intro: unequal_distinct)
  have "orderedT (?pre @ ?pts) (length ?pre) ?s"
    unfolding orderedT_def
    by (rule exI [of _ 0], rule exI [of _ 1], rule exI [of _ 2])
       (simp add: CalcCircumCircle_vertices)
  then have "\<forall>t \<in> set (fst ([?s], [])). orderedT (?pre @ ?pts) (length ?pre) t"
    by simp
  with u have "edgesUnambiguous exact ?pts ([?s], [])"
    by (rule edgesUnambiguous_unequal)
  then show ?thesis
    by (simp only: six_points_sorted)
qed

lemma six_points_unsafe:
  "\<not> finalizationsSafe exact
     (sort_Sort exact (Less exact)
        [pt (- 1) 0, pt 0 (- 1), pt 1 0, pt 2 2, \<lparr>X = NaN, Y = Fin 0\<rparr>, pt (1 / 2) (1 / 2)])
     ([CalcCircumCircle exact super_test], [])"
proof
  let ?t = "cached (pt (- 1) 0) (pt 0 (- 1)) (pt 1 0) (pt 0 0) 1"
  assume "finalizationsSafe exact
     (sort_Sort exact (Less exact)
        [pt (- 1) 0, pt 0 (- 1), pt 1 0, pt 2 2, \<lparr>X = NaN, Y = Fin 0\<rparr>, pt (1 / 2) (1 / 2)])
     ([CalcCircumCircle exact super_test], [])"
  then have "finalizedSafely exact (pt 2 2) [\<lparr>X = NaN, Y = Fin 0\<rparr>, pt (1 / 2) (1 / 2)]
     (fst (insertPoint exact (pt 1 0) (insertPoint exact (pt 0 (- 1)) (insertPoint exact (pt (- 1) 0)
        ([CalcCircumCircle exact super_test], [])))))"
    by (simp only: six_points_sorted finalizationsSafe.simps)
  then have safe: "finalizedSafely exact (pt 2 2) [\<lparr>X = NaN, Y = Fin 0\<rparr>, pt (1 / 2) (1 / 2)]
     (fst ([cached (pt 0 50) (pt (- 50) (- 50)) (pt (- 1) 0) (pt (- (3749 / 48)) (2549 / 96)) (61287005 / 9216),
     cached (pt (- 50) (- 50)) (pt (- 1) 0) (pt 0 (- 1)) (pt (- (4999 / 198)) (- (4999 / 198))) (24019801 / 19602),
     cached (pt 50 (- 50)) (pt (- 50) (- 50)) (pt 0 (- 1)) (pt 0 (- (4999 / 98))) (24019801 / 9604),
     cached (pt 0 50) (pt 50 (- 50)) (pt 1 0) (pt (3749 / 48) (2549 / 96)) (61287005 / 9216),
     cached (pt 0 50) (pt 0 (- 1)) (pt 1 0) (pt (- (49 / 2)) (49 / 2)) (2501 / 2),
     cached (pt 50 (- 50)) (pt 0 (- 1)) (pt 1 0) (pt (4999 / 198) (- (4999 / 198))) (24019801 / 19602),
     cached (pt 0 50) (pt (- 1) 0) (pt 1 0) (pt 0 (2499 / 100)) (6255001 / 10000),
     cached (pt (- 1) 0) (pt 0 (- 1)) (pt 1 0) (pt 0 0) 1,
     cached (pt 50 (- 50)) (pt (- 1) 0) (pt 1 0) (pt 0 (- (4999 / 100))) (25000001 / 10000)],
     [] :: xfloat Triangle list))"
    by (simp only: super_test_calculated early_step1 early_step2 early_step3)
  have "finalizes exact (pt 2 2) ?t"
    by (simp add: finalizes_def eval_exact)
  moreover have "CircumcircleContains exact ?t (pt (1 / 2) (1 / 2))"
    by (simp add: eval_exact)
  ultimately show False
    using safe unfolding finalizedSafely_def by simp
qed



subsection \<open>The containment test\<close>



subsection \<open>No output triangle touches the enclosing triangle\<close>

text \<open>
  Claim C5. For every list of points and every enclosing triangle, no triangle in the
  returned list has a vertex that \<^verbatim>\<open>==\<close> one of the three vertices of the enclosing
  triangle.
\<close>

theorem purge_removes_super:
  "\<forall>t \<in> set (DelaunayTriangulation E points super).
     \<not> HasVertex E t (Triangle.A super) \<and> \<not> HasVertex E t (Triangle.B super)
     \<and> \<not> HasVertex E t (C super)"
  by (simp add: DelaunayTriangulation_def Let_def split_def set_purge kept_def
      CalcCircumCircle_vertices)

text \<open>The four points above give three triangles, none with a vertex of the enclosing triangle.\<close>

theorem purge_removes_super_witness:
  "DelaunayTriangulation exact [pt (- 1) 0, pt 0 (- 1), pt 1 0, pt 2 2] super_test =
    [cached (pt (- 1) 0) (pt 0 (- 1)) (pt 1 0) (pt 0 0) 1,
     cached (pt 0 (- 1)) (pt 1 0) (pt 2 2) (pt (- (7 / 2)) (7 / 2)) (65 / 2),
     cached (pt (- 1) 0) (pt 1 0) (pt 2 2) (pt 0 (7 / 4)) (65 / 16)] \<and>
   \<not> HasVertex exact (cached (pt (- 1) 0) (pt 0 (- 1)) (pt 1 0) (pt 0 0) 1) (Triangle.A super_test) \<and>
   \<not> HasVertex exact (cached (pt (- 1) 0) (pt 0 (- 1)) (pt 1 0) (pt 0 0) 1) (Triangle.B super_test) \<and>
   \<not> HasVertex exact (cached (pt (- 1) 0) (pt 0 (- 1)) (pt 1 0) (pt 0 0) 1) (C super_test)"
  using purge_removes_super [of exact "[pt (- 1) 0, pt 0 (- 1), pt 1 0, pt 2 2]" super_test]
  by (simp add: four_points)

subsection \<open>Only calculated triangles are queried\<close>







subsection \<open>The function returns\<close>

lemma scan_opt_scan: "scan_opt E p i ts result edges = Some (scan E p i ts result edges)"
proof (induction E p i ts result edges rule: scan.induct)
  case (1 E p i ts result edges)
  show ?case
  proof (cases "i < length ts")
    case False
    then show ?thesis
      by (simp add: scan.simps [of E p i ts] scan_opt.simps [of E p i ts])
  next
    case True
    with "1.IH" [OF True refl] show ?thesis
      by (simp add: scan.simps [of E p i ts] scan_opt.simps [of E p i ts] Let_def)
  qed
qed

lemma dedupInner_opt_dedupInner: "dedupInner_opt E j i edges = Some (dedupInner E j i edges)"
proof (induction E j i edges rule: dedupInner.induct)
  case (1 E j i edges)
  show ?case
  proof (cases "i < length edges")
    case False
    then show ?thesis
      by (simp add: dedupInner.simps [of E j i edges] dedupInner_opt.simps [of E j i edges])
  next
    case True
    with "1.IH" [OF True] show ?thesis
      by (simp add: dedupInner.simps [of E j i edges] dedupInner_opt.simps [of E j i edges])
  qed
qed

lemma dedupOuter_opt_dedupOuter: "dedupOuter_opt E j edges = Some (dedupOuter E j edges)"
proof (induction E j edges rule: dedupOuter.induct)
  case (1 E j edges)
  show ?case
  proof (cases "j < length edges")
    case False
    then show ?thesis
      by (simp add: dedupOuter.simps [of E j edges] dedupOuter_opt.simps [of E j edges])
  next
    case True
    with "1.IH" [OF True] show ?thesis
      by (simp add: dedupOuter.simps [of E j edges] dedupOuter_opt.simps [of E j edges]
          dedupInner_opt_dedupInner)
  qed
qed

lemma purge_opt_purge: "purge_opt E super i result = Some (purge E super i result)"
proof (induction E super i result rule: purge.induct)
  case (1 E super i result)
  show ?case
  proof (cases "i < length result")
    case False
    then show ?thesis
      by (simp add: purge.simps [of E super i result] purge_opt.simps [of E super i result])
  next
    case True
    with "1.IH" [OF True refl] show ?thesis
      by (simp add: purge.simps [of E super i result] purge_opt.simps [of E super i result] Let_def)
  qed
qed

lemma insertPoint_opt_insertPoint: "insertPoint_opt E p s = Some (insertPoint E p s)"
  by (simp add: insertPoint_opt_def insertPoint_def scan_opt_scan dedupOuter_opt_dedupOuter
      split: prod.splits)

lemma insertPoints_opt_insertPoints: "insertPoints_opt E pts s = Some (insertPoints E pts s)"
  by (induction pts arbitrary: s) (simp_all add: insertPoint_opt_insertPoint)

text \<open>
  Claim C7. For every list of points and every enclosing triangle, collinear, repeated
  and outlying points included, \<open>DelaunayTriangulation\<close> runs to completion: the loops as
  partial functions return a value, the one computed by the total functions. Their
  termination orders are \<open>len(ts) - i\<close>, \<open>len(edges) - i\<close>, \<open>len(edges) - j\<close> and
  \<open>len(result) - i\<close>: each iteration advances the index or shortens the slice.
\<close>

theorem DelaunayTriangulation_terminates:
  "DelaunayTriangulation_opt E points super = Some (DelaunayTriangulation E points super)"
  by (simp add: DelaunayTriangulation_opt_def DelaunayTriangulation_def Let_def
      insertPoints_opt_insertPoints purge_opt_purge split: prod.splits)

text \<open>The run on the four points above returns the three triangles.\<close>

theorem DelaunayTriangulation_terminates_witness:
  "DelaunayTriangulation_opt exact [pt (- 1) 0, pt 0 (- 1), pt 1 0, pt 2 2] super_test =
    Some [cached (pt (- 1) 0) (pt 0 (- 1)) (pt 1 0) (pt 0 0) 1,
          cached (pt 0 (- 1)) (pt 1 0) (pt 2 2) (pt (- (7 / 2)) (7 / 2)) (65 / 2),
          cached (pt (- 1) 0) (pt 1 0) (pt 2 2) (pt 0 (7 / 4)) (65 / 16)]"
  using DelaunayTriangulation_terminates [of exact "[pt (- 1) 0, pt 0 (- 1), pt 1 0, pt 2 2]" super_test]
  by (simp add: four_points)

subsection \<open>No points\<close>

text \<open>
  Claim C8 says that without points the result is empty for any enclosing triangle. The
  final filter removes the enclosing triangle only if one of its vertices \<^verbatim>\<open>==\<close> one of its
  vertices, and NaN is not \<^verbatim>\<open>==\<close> to itself: an enclosing triangle whose three vertices
  each have a NaN coordinate is returned.
\<close>

theorem nan_super_not_purged:
  "DelaunayTriangulation exact [] nan_triangle \<noteq> []"
  by (simp add: nan_triangle_def eval_exact)

text \<open>
  Claim C8, amended. Without points, and for an enclosing triangle of which at least one
  vertex is \<^verbatim>\<open>==\<close> to itself (no NaN coordinate), the result is empty, \<^verbatim>\<open>sort.Sort\<close> leaving
  an empty slice empty.
\<close>

theorem empty_input:
  assumes "sort_Sort E (Less E) [] = []"
    and "peq E (Triangle.A super) (Triangle.A super) \<or> peq E (Triangle.B super) (Triangle.B super)
         \<or> peq E (C super) (C super)"
  shows "DelaunayTriangulation E [] super = []"
proof -
  let ?s = "CalcCircumCircle E super"
  from assms(2) have "\<not> kept E ?s ?s"
    by (auto simp: kept_def HasVertex_def CalcCircumCircle_vertices)
  then have "set (purge E ?s 0 [?s]) = {}"
    by (simp add: set_purge)
  with assms(1) show ?thesis
    by (simp add: DelaunayTriangulation_def Let_def)
qed

theorem empty_input_witness:
  "sort_Sort exact (Less exact) [] = [] \<and>
   (peq exact (Triangle.A super_test) (Triangle.A super_test)
     \<or> peq exact (Triangle.B super_test) (Triangle.B super_test)
     \<or> peq exact (C super_test) (C super_test)) \<and>
   DelaunayTriangulation exact [] super_test = []"
proof -
  have s: "sort_Sort exact (Less exact) [] = []"
    by (simp add: exact_ops insertionSort_def)
  have v: "peq exact (Triangle.A super_test) (Triangle.A super_test)
     \<or> peq exact (Triangle.B super_test) (Triangle.B super_test)
     \<or> peq exact (C super_test) (C super_test)"
    by (simp add: peq_def exact_ops super_test_def triangle_def pt_def)
  from s v empty_input [OF s v] show ?thesis
    by simp
qed

subsection \<open>Equality of edges\<close>

text \<open>
  Claim C9 says that \<open>Edge{A,B}\<close> is equal to \<open>Edge{B,A}\<close> for all points. With a NaN
  coordinate in \<open>A\<close>, \<open>A == A\<close> is false and so is \<open>isEqual\<close>.
\<close>

theorem nan_edge_not_equal:
  "\<not> isEqual exact (edge \<lparr>X = NaN, Y = Fin 0\<rparr> (pt 1 0)) (edge (pt 1 0) \<lparr>X = NaN, Y = Fin 0\<rparr>)"
  by (simp add: isEqual_def edge_def peq_def exact_ops pt_def)

lemma isEqual_endpoints:
  assumes sym: "\<forall>x y. feq E x y \<longrightarrow> feq E y x"
    and trans: "\<forall>x y z. feq E x y \<longrightarrow> feq E y z \<longrightarrow> feq E x z"
  shows "isEqual E e1 e2 =
     ((\<forall>p \<in> set (endpoints e1). \<exists>q \<in> set (endpoints e2). peq E p q) \<and>
      (\<forall>q \<in> set (endpoints e2). \<exists>p \<in> set (endpoints e1). peq E p q))"
proof -
  have s: "peq E p q \<Longrightarrow> peq E q p" for p q
    using sym by (auto simp: peq_def)
  have t: "peq E p q \<Longrightarrow> peq E q r \<Longrightarrow> peq E p r" for p q r
    using trans unfolding peq_def by blast
  show ?thesis
    unfolding isEqual_def endpoints_def
    by (auto intro: s t)
qed

text \<open>
  Claim C9, amended. For points \<open>a\<close> and \<open>b\<close> that are each \<^verbatim>\<open>==\<close> to themselves (no NaN
  coordinate), \<open>Edge{a,b}\<close> is equal to \<open>Edge{b,a}\<close>. For all edges, \<^verbatim>\<open>==\<close> being symmetric
  and transitive, \<open>isEqual\<close> holds exactly when every endpoint of each edge \<^verbatim>\<open>==\<close> an
  endpoint of the other.
\<close>

theorem isEqual_symmetric:
  assumes "peq E a a" and "peq E b b"
    and "\<forall>x y. feq E x y \<longrightarrow> feq E y x"
    and "\<forall>x y z. feq E x y \<longrightarrow> feq E y z \<longrightarrow> feq E x z"
  shows "isEqual E (edge a b) (edge b a) \<and>
     isEqual E e1 e2 =
       ((\<forall>p \<in> set (endpoints e1). \<exists>q \<in> set (endpoints e2). peq E p q) \<and>
        (\<forall>q \<in> set (endpoints e2). \<exists>p \<in> set (endpoints e1). peq E p q))"
  using assms(1,2) isEqual_endpoints [OF assms(3,4), of e1 e2]
  by (simp add: isEqual_def edge_def)

theorem isEqual_symmetric_witness:
  "peq exact (pt 0 50) (pt 0 50) \<and> peq exact (pt (- 1) 0) (pt (- 1) 0) \<and>
   isEqual exact (edge (pt 0 50) (pt (- 1) 0)) (edge (pt (- 1) 0) (pt 0 50)) \<and>
   isEqual exact (edge (pt 0 50) (pt (- 1) 0)) (edge (pt (- 1) 0) (pt 0 50)) =
     ((\<forall>p \<in> set (endpoints (edge (pt 0 50) (pt (- 1) 0))).
         \<exists>q \<in> set (endpoints (edge (pt (- 1) 0) (pt 0 50))). peq exact p q) \<and>
      (\<forall>q \<in> set (endpoints (edge (pt (- 1) 0) (pt 0 50))).
         \<exists>p \<in> set (endpoints (edge (pt 0 50) (pt (- 1) 0))). peq exact p q))"
proof -
  have a: "peq exact (pt 0 50) (pt 0 50)" and b: "peq exact (pt (- 1) 0) (pt (- 1) 0)"
    by (simp_all add: peq_def exact_ops pt_def)
  have s: "\<forall>x y. feq exact x y \<longrightarrow> feq exact y x"
    by (auto simp: exact_ops dest: xeq_sym)
  have t: "\<forall>x y z. feq exact x y \<longrightarrow> feq exact y z \<longrightarrow> feq exact x z"
    by (auto simp: exact_ops dest: xeq_trans)
  from isEqual_symmetric [OF a b s t, of "edge (pt 0 50) (pt (- 1) 0)" "edge (pt (- 1) 0) (pt 0 50)"]
    a b
  show ?thesis
    by blast
qed

subsection \<open>The caller's slice is left as it was\<close>

text \<open>
  Claim C10. The call leaves every array that existed before it, the caller's \<open>points\<close>
  among them, with the same elements in the same order: the array that is sorted is the
  fresh one that \<^verbatim>\<open>make\<close> returned. The triangles returned are those of the function on the
  contents of \<open>points\<close>.
\<close>

theorem points_not_modified:
  assumes "points < unused h"
  shows "(\<forall>a < unused h.
            arrays (snd (DelaunayTriangulation_heap E h points super)) a = arrays h a) \<and>
         fst (DelaunayTriangulation_heap E h points super)
           = DelaunayTriangulation E (arrays h points) super"
  using assms
  by (simp add: DelaunayTriangulation_heap_def DelaunayTriangulation_def make_def copy_def
      sortInPlace_def Let_def split_def)

text \<open>A caller's array that is not in ascending order is still in its order after the call.\<close>

theorem points_not_modified_witness:
  "(0 :: nat) < unused \<lparr>arrays = (\<lambda>a. [])(0 := [pt 1 0, pt (- 1) 0]), unused = 1\<rparr> \<and>
   arrays (snd (DelaunayTriangulation_heap exact
       \<lparr>arrays = (\<lambda>a. [])(0 := [pt 1 0, pt (- 1) 0]), unused = 1\<rparr> 0 super_test)) 0
     = [pt 1 0, pt (- 1) 0]"
  using points_not_modified
    [of 0 "\<lparr>arrays = (\<lambda>a. [])(0 := [pt 1 0, pt (- 1) 0]), unused = 1\<rparr>" exact super_test]
  by simp

end
